theory Spec2Isabelle
  imports Main "HOL-Library.AList"
begin

section \<open>Responses and the four exception handlers\<close>

text \<open>
  The payload of a \<^verbatim>\<open>JSONResponse\<close> is a JSON value; a response is its status code
  and its content, and a plain \<^verbatim>\<open>Response\<close> with a status code only has no content.
\<close>

datatype json =
    JNull
  | JBool bool
  | JStr string
  | JList "json list"
  | JObj "(string \<times> json) list"

record response =
  status_code :: nat
  content :: "json option"

definition JSONResponse :: "nat \<Rightarrow> json \<Rightarrow> response" where
  "JSONResponse code c = \<lparr>status_code = code, content = Some c\<rparr>"


text \<open>
  The exceptions a request can end with, by the classes that have a handler in the
  application: the three classes \<^verbatim>\<open>create_app\<close> registers besides \<^verbatim>\<open>Exception\<close>, and
  the web framework's \<^verbatim>\<open>HTTPException\<close>, for which the framework has a handler of its
  own. A \<^verbatim>\<open>RequestValidationError\<close> carries what \<^verbatim>\<open>exc.errors()\<close> and
  \<^verbatim>\<open>exc.body\<close> return, an \<^verbatim>\<open>HTTPException\<close> its status code and its detail, the
  others their text, which is what \<^verbatim>\<open>str(exc)\<close> returns. A constructor stands for the
  instances of its class and of the subclasses of it; \<^verbatim>\<open>Exception\<close> stands for every
  exception that is an instance of none of the four other classes.
\<close>

datatype exc =
    RequestValidationError (errors: json) (body: json)
  | IntegrityError (str: string)
  | ObjectNotFoundError (str: string)
  | HTTPException (exc_status_code: nat) (detail: json)
  | Exception (str: string)

datatype exc_class =
    Exception_class
  | RequestValidationError_class
  | IntegrityError_class
  | ObjectNotFoundError_class
  | HTTPException_class



text \<open>
  The logger \<^verbatim>\<open>orion\<close> is a list of records, oldest first. \<^verbatim>\<open>exc_info=True\<close>
  attaches the exception being handled to the record.
\<close>

datatype log_entry = LogInfo string | LogError string exc

type_synonym request = string

text \<open>
  \<^verbatim>\<open>jsonable_encoder\<close> belongs to the web framework; on a value that is JSON already it
  returns the value.
\<close>

definition jsonable_encoder :: "json \<Rightarrow> json" where
  "jsonable_encoder j = j"

text \<open>Each handler returns the records it logs and the response it sends.\<close>

definition validation_exception_handler :: "request \<Rightarrow> exc \<Rightarrow> log_entry list \<times> response" where
  "validation_exception_handler req e =
     ([], JSONResponse 422 (jsonable_encoder (JObj
            [(''exception_message'', JStr ''Invalid request received.''),
             (''exception_detail'', errors e),
             (''request_body'', body e)])))"

definition integrity_exception_handler :: "request \<Rightarrow> exc \<Rightarrow> log_entry list \<times> response" where
  "integrity_exception_handler req e =
     ([LogError ''Encountered exception in request:'' e],
      JSONResponse 409 (JObj
        [(''detail'', JStr (''Data integrity conflict. This usually means a '' @
                           ''unique or foreign key constraint was violated. '' @
                           ''See server logs for details.''))]))"

definition custom_internal_exception_handler :: "request \<Rightarrow> exc \<Rightarrow> log_entry list \<times> response" where
  "custom_internal_exception_handler req e =
     ([LogError ''Encountered exception in request:'' e],
      JSONResponse 500 (JObj [(''exception_message'', JStr ''Internal Server Error'')]))"

definition prefect_object_not_found_exception_handler ::
  "request \<Rightarrow> exc \<Rightarrow> log_entry list \<times> response" where
  "prefect_object_not_found_exception_handler req e =
     ([], JSONResponse 404 (JObj [(''exception_message'', JStr (str e))]))"

text \<open>
  The \<^verbatim>\<open>exception_handlers\<close> table that \<^verbatim>\<open>create_app\<close> passes to the API
  application, in the order of the source.
\<close>

type_synonym handler = "request \<Rightarrow> exc \<Rightarrow> log_entry list \<times> response"

definition exception_handlers :: "(exc_class \<times> handler) list" where
  "exception_handlers =
     [(Exception_class, custom_internal_exception_handler),
      (RequestValidationError_class, validation_exception_handler),
      (IntegrityError_class, integrity_exception_handler),
      (ObjectNotFoundError_class, prefect_object_not_found_exception_handler)]"

datatype kwarg = exception_handlers_kwarg "(exc_class \<times> handler) list"









section \<open>Routers and the errors of \<^verbatim>\<open>create_orion_api\<close>\<close>

text \<open>
  A route entry is a pair (HTTP method, path). An \<^verbatim>\<open>APIRouter\<close> is read by the
  source through two attributes only: \<^verbatim>\<open>router.prefix\<close> and \<^verbatim>\<open>router.routes\<close>.
\<close>

type_synonym method_path = "string \<times> string"

record router =
  prefix :: string
  routes :: "method_path list"

text \<open>
  Modelled from the spec: \<^verbatim>\<open>method_paths_from_routes\<close> lives in
  \<^verbatim>\<open>prefect.orion.utilities.server\<close>, which is not embedded here. The
  spec describes its result as the set of (method, sub-path) entries of a route group.
\<close>

definition method_paths_from_routes :: "method_path list \<Rightarrow> method_path set" where
  "method_paths_from_routes rs = set rs"

text \<open>
  The three \<^verbatim>\<open>raise\<close> statements of the override loop. The message of each exception is
  kept as a value: the first names the unknown prefix, the second the key and the prefix
  the replacement declares, the third the key and
  \<^verbatim>\<open>existing_paths.difference(new_paths)\<close>. \<^verbatim>\<open>AttributeError\<close> is used further down.
\<close>

datatype message =
    PrefixDoesNotExist string
  | DifferentPrefix string string
  | MissingPaths string "method_path set"

datatype error = KeyError message | ValueError message | AttributeError string

text \<open>
  A Python \<^verbatim>\<open>dict\<close> keeps insertion order and has one entry per key: it is an association
  list with distinct keys. \<^verbatim>\<open>d[k] = v\<close> is \<^const>\<open>AList.update\<close> (in place for a
  known key, at the end for a new one), \<^verbatim>\<open>d.pop(k)\<close> is \<^const>\<open>AList.delete\<close>, and
  \<^verbatim>\<open>k in d\<close> is \<^term>\<open>map_of d k \<noteq> None\<close>.
\<close>

type_synonym ('k, 'v) dict = "('k \<times> 'v) list"

text \<open>\<^verbatim>\<open>routers = {router.prefix: router for router in API_ROUTERS}\<close>\<close>

definition routers_by_prefix :: "router list \<Rightarrow> (string, router) dict" where
  "routers_by_prefix rs = foldl (\<lambda>d r. AList.update (prefix r) r d) [] rs"

text \<open>
  The body of \<^verbatim>\<open>for prefix, router in router_overrides.items()\<close>, one equation per
  iteration; \<^verbatim>\<open>Inl\<close> is the exception that leaves the loop.
\<close>

fun router_overrides_loop ::
  "(string, router) dict \<Rightarrow> (string, router option) dict \<Rightarrow> error + (string, router) dict"
where
  "router_overrides_loop routers [] = Inr routers"
| "router_overrides_loop routers ((p, new) # rest) =
     (case map_of routers p of
        None \<Rightarrow> Inl (KeyError (PrefixDoesNotExist p))
      | Some existing_router \<Rightarrow>
          (let routers' = AList.delete p routers in
           case new of
             None \<Rightarrow> router_overrides_loop routers' rest
           | Some r \<Rightarrow>
               if p \<noteq> prefix r then Inl (ValueError (DifferentPrefix p (prefix r)))
               else
                 (let existing_paths = method_paths_from_routes (routes existing_router);
                      new_paths = method_paths_from_routes (routes r)
                  in if \<not> existing_paths \<subseteq> new_paths
                     then Inl (ValueError (MissingPaths p (existing_paths - new_paths)))
                     else router_overrides_loop (AList.update p r routers') rest)))"

section \<open>The store of list objects and the assembled API application\<close>

text \<open>
  \<^verbatim>\<open>dependencies\<close> is a Python list passed by reference and appended to in place. Lists
  live in a store: \<^verbatim>\<open>cells\<close> maps a reference to the list's current contents and
  \<^verbatim>\<open>fresh\<close> is the next unused reference.
\<close>

datatype depends = Depends string

definition version_checker :: string where
  "version_checker = ''CheckVersionCompatibility(0.5.0)''"

record store =
  cells :: "nat \<Rightarrow> depends list"
  fresh :: nat

definition new_list :: "depends list \<Rightarrow> store \<Rightarrow> nat \<times> store" where
  "new_list xs h = (fresh h, h\<lparr>cells := (cells h)(fresh h := xs), fresh := Suc (fresh h)\<rparr>)"

definition list_append :: "nat \<Rightarrow> depends \<Rightarrow> store \<Rightarrow> store" where
  "list_append a d h = h\<lparr>cells := (cells h)(a := cells h a @ [d])\<rparr>"

text \<open>
  What the source hands to the web framework: the title, the keyword arguments, the
  health check route, the mounts, and one \<^verbatim>\<open>include_router\<close> call per remaining router, each with
  the prefix and the reference of the dependencies list.
\<close>

definition API_TITLE :: string where
  "API_TITLE = ''Prefect Orion API''"

record api_app =
  title :: string
  kwargs :: "kwarg list"
  health_check :: string
  included :: "(router \<times> string \<times> nat) list"
  api_mounts :: "(string \<times> string) list"

text \<open>
  \<^verbatim>\<open>create_orion_api\<close>. \<^verbatim>\<open>API_ROUTERS\<close> is a tuple of routers defined in modules that
  are not embedded here, so it is a parameter. The store is returned in
  every case: the append to \<^verbatim>\<open>dependencies\<close> happens before the override loop, so it
  has happened also when the loop raises.
\<close>

definition create_orion_api ::
  "router list \<Rightarrow> store \<Rightarrow> string \<Rightarrow> nat option \<Rightarrow> string \<Rightarrow> kwarg list option \<Rightarrow>
   (string, router option) dict option \<Rightarrow> store \<times> (error + api_app)"
where
  "create_orion_api API_ROUTERS h router_prefix dependencies health_check_path
       fast_api_app_kwargs router_overrides =
    (let kw = (case fast_api_app_kwargs of None \<Rightarrow> [] | Some k \<Rightarrow> k);
         (deps, h') = (case dependencies of
                         None \<Rightarrow> new_list [Depends version_checker] h
                       | Some a \<Rightarrow> (a, list_append a (Depends version_checker) h));
         routers = routers_by_prefix API_ROUTERS;
         overridden = (case router_overrides of
                         None \<Rightarrow> Inr routers
                       | Some ovs \<Rightarrow> if ovs = [] then Inr routers
                                    else router_overrides_loop routers ovs)
     in case overridden of
          Inl e \<Rightarrow> (h', Inl e)
        | Inr routers' \<Rightarrow>
            (h', Inr \<lparr>title = API_TITLE, kwargs = kw, health_check = health_check_path,
                      included = map (\<lambda>r. (r, router_prefix, deps)) (map snd routers'),
                      api_mounts = []\<rparr>))"

text \<open>The router an assembled application serves under a prefix, if any.\<close>

definition served :: "api_app \<Rightarrow> string \<Rightarrow> router option" where
  "served app p = map_of (map (\<lambda>(r, _, _). (prefix r, r)) (included app)) p"


section \<open>Settings, environment and the UI application\<close>

text \<open>
  \<^verbatim>\<open>prefect.settings\<close> is not embedded here; a settings value is the record
  of the settings this module reads. \<^verbatim>\<open>SETTING.value()\<close> reads the settings of the
  current context, which \<^verbatim>\<open>get_current_settings()\<close> returns too: the field
  \<^verbatim>\<open>current_settings\<close> of the environment. The environment also holds what the module
  reads from the operating system.
\<close>

record settings =
  PREFECT_ORION_UI_ENABLED :: bool
  PREFECT_ORION_SERVICES_SCHEDULER_ENABLED :: bool
  PREFECT_ORION_SERVICES_LATE_RUNS_ENABLED :: bool
  PREFECT_ORION_ANALYTICS_ENABLED :: bool
  PREFECT_ORION_SERVICES_FLOW_RUN_NOTIFICATIONS_ENABLED :: bool

record env =
  API_ROUTERS :: "router list"
  current_settings :: settings
  ui_static_path_exists :: bool
  PREFECT_ORION_DEV_UPDATE_BLOCKS :: "string option"

definition UI_TITLE :: string where
  "UI_TITLE = ''Prefect Orion UI''"

definition TITLE :: string where
  "TITLE = ''Prefect Orion''"

record ui_app =
  ui_title :: string
  ui_routes :: "method_path list"
  ui_mounts :: "(string \<times> string) list"

text \<open>
  \<^verbatim>\<open>create_ui_app\<close>. A mount is recorded as its path and its name. The registration of
  a MIME type on Windows changes the \<^verbatim>\<open>mimetypes\<close> module only and is left out.
\<close>

definition create_ui_app :: "env \<Rightarrow> bool \<Rightarrow> ui_app" where
  "create_ui_app ev ephemeral =
     \<lparr>ui_title = UI_TITLE,
      ui_routes = [(''GET'', ''/ui-settings'')],
      ui_mounts = (if ui_static_path_exists ev
                      \<and> PREFECT_ORION_UI_ENABLED (current_settings ev)
                      \<and> \<not> ephemeral
                   then [(''/'', ''ui_root'')] else [])\<rparr>"

section \<open>Services, tasks and the application object\<close>

datatype service = Scheduler | MarkLateRuns | Telemetry | FlowRunNotifications

text \<open>
  Modelled from the spec: the service classes live in \<^verbatim>\<open>prefect.orion.services\<close>,
  which is not embedded here. The spec gives a service a name for logging,
  a start operation that runs until it is stopped or fails, and a stop operation that
  requests graceful termination; a stop request is not a completion.
\<close>

fun name :: "service \<Rightarrow> string" where
  "name Scheduler = ''Scheduler''"
| "name MarkLateRuns = ''MarkLateRuns''"
| "name Telemetry = ''Telemetry''"
| "name FlowRunNotifications = ''FlowRunNotifications''"

text \<open>
  A task is what \<^verbatim>\<open>loop.create_task(service.start())\<close> returns, an
  \<^verbatim>\<open>asyncio.Task\<close>: pending until the coroutine returns or raises. Its done callbacks
  are the services \<^verbatim>\<open>s\<close> of the registered \<^verbatim>\<open>partial(on_service_exit, s)\<close>.
\<close>

datatype task_state = Pending | Returned | Raised exc

record task =
  state :: task_state
  done_callbacks :: "service list"

fun terminal :: "task_state \<Rightarrow> bool" where
  "terminal Pending = False"
| "terminal Returned = True"
| "terminal (Raised _) = True"

text \<open>
  \<^verbatim>\<open>app.state.services\<close>: unset until \<^verbatim>\<open>start_services\<close> has run, then \<^verbatim>\<open>None\<close>
  or a dict from each service to the reference of its task.
\<close>

datatype 'a attribute = Unset | Assigned 'a

record app =
  app_title :: string
  ephemeral_closure :: bool
  api :: api_app
  ui :: ui_app
  mounts :: "(string \<times> string) list"
  state_services :: "(service, nat) dict option attribute"

text \<open>
  Everything the module's functions read and change: the store of list objects, the
  application objects with the next unused reference, the module-level \<^verbatim>\<open>APP_CACHE\<close>,
  the tasks of the running event loop (a task's reference is its index), the stop
  requests the services have received, and the logger.
\<close>

record world =
  heap :: store
  apps :: "nat \<Rightarrow> app"
  apps_fresh :: nat
  APP_CACHE :: "(settings \<times> bool, nat) dict"
  loop_tasks :: "task list"
  stop_requests :: "service list"
  logger :: "log_entry list"

text \<open>
  \<^verbatim>\<open>start_services\<close>, a closure over \<^verbatim>\<open>ephemeral\<close> and \<^verbatim>\<open>app\<close>: the argument
  \<^verbatim>\<open>a\<close> is the reference of the application the closure belongs to.
\<close>

definition service_instances :: "settings \<Rightarrow> service list" where
  "service_instances s =
     (if PREFECT_ORION_SERVICES_SCHEDULER_ENABLED s then [Scheduler] else []) @
     (if PREFECT_ORION_SERVICES_LATE_RUNS_ENABLED s then [MarkLateRuns] else []) @
     (if PREFECT_ORION_ANALYTICS_ENABLED s then [Telemetry] else []) @
     (if PREFECT_ORION_SERVICES_FLOW_RUN_NOTIFICATIONS_ENABLED s then [FlowRunNotifications] else [])"

definition start_services :: "env \<Rightarrow> nat \<Rightarrow> world \<Rightarrow> world" where
  "start_services ev a w =
     (if ephemeral_closure (apps w a)
      then w\<lparr>apps := (apps w)(a := (apps w a)\<lparr>state_services := Assigned None\<rparr>)\<rparr>
      else
        (let instances = service_instances (current_settings ev);
             n = length (loop_tasks w);
             services = zip instances [n ..< n + length instances]
         in w\<lparr>apps := (apps w)(a := (apps w a)\<lparr>state_services := Assigned (Some services)\<rparr>),
              loop_tasks := loop_tasks w @
                 map (\<lambda>s. \<lparr>state = Pending, done_callbacks = [s]\<rparr>) instances,
              logger := logger w @
                 map (\<lambda>s. LogInfo (name s @ '' service scheduled to start in-app'')) instances\<rparr>))"

text \<open>
  \<^verbatim>\<open>on_service_exit\<close>, run by the event loop when a task is done: \<^verbatim>\<open>task.result()\<close>
  raises the exception of a task that raised.
\<close>

fun on_service_exit :: "service \<Rightarrow> task_state \<Rightarrow> log_entry list \<Rightarrow> log_entry list" where
  "on_service_exit s (Raised e) lg = lg @ [LogError (name s @ '' service failed!'') e]"
| "on_service_exit s _ lg = lg @ [LogInfo (name s @ '' service stopped!'')]"

text \<open>
  \<^verbatim>\<open>task.stop()\<close> at line 345: the values of \<^verbatim>\<open>app.state.services\<close> are
  \<^verbatim>\<open>asyncio.Task\<close> objects, and that class has \<^verbatim>\<open>cancel\<close>, \<^verbatim>\<open>done\<close>,
  \<^verbatim>\<open>result\<close> and no attribute \<^verbatim>\<open>stop\<close>, so the attribute lookup raises. The list
  comprehension stops at the first element that raises.
\<close>

definition task_stop :: "nat \<Rightarrow> error + unit" where
  "task_stop t = Inl (AttributeError ''stop'')"

fun task_stops :: "nat list \<Rightarrow> error + unit list" where
  "task_stops [] = Inr []"
| "task_stops (t # ts) =
     (case task_stop t of
        Inl e \<Rightarrow> Inl e
      | Inr u \<Rightarrow> (case task_stops ts of Inl e \<Rightarrow> Inl e | Inr us \<Rightarrow> Inr (u # us)))"

text \<open>
  \<^verbatim>\<open>stop_services\<close>. Reading \<^verbatim>\<open>app.state.services\<close> before it was set raises. An
  empty dict is as false as \<^verbatim>\<open>None\<close>. The first \<^verbatim>\<open>gather\<close> sends every service
  its stop request; the requests are recorded in the order of the dict. The second
  \<^verbatim>\<open>gather\<close> is inside \<^verbatim>\<open>try\<close>, and \<^verbatim>\<open>except Exception: pass\<close> discards what
  building its arguments raises; its other branch would await what \<^verbatim>\<open>task.stop()\<close>
  returned, and no task gives anything to await. No statement of the function changes a
  task. While the function awaits the stop requests the event loop may run the tasks;
  the model follows the run in which a task that was pending at the call still is
  pending when the requests are acknowledged.
\<close>

definition stop_services :: "nat \<Rightarrow> world \<Rightarrow> error + world" where
  "stop_services a w =
     (case state_services (apps w a) of
        Unset \<Rightarrow> Inl (AttributeError ''services'')
      | Assigned None \<Rightarrow> Inr w
      | Assigned (Some services) \<Rightarrow>
          if services = [] then Inr w
          else
            (let w1 = w\<lparr>stop_requests := stop_requests w @ map fst services\<rparr>
             in case task_stops (map snd services) of
                  Inl e \<Rightarrow> Inr w1
                | Inr awaited \<Rightarrow> Inr w1))"

section \<open>The application cache and \<^verbatim>\<open>create_app\<close>\<close>

text \<open>
  \<^verbatim>\<open>settings = settings or prefect.settings.get_current_settings()\<close>; a settings object
  is never false.
\<close>

text \<open>
  \<^verbatim>\<open>create_app\<close>. The settings argument is used for the cache key only. The result is
  the reference of the application object, so that two results can be compared for
  identity. The OpenAPI schema function attached at the end reads the API application
  and changes nothing; it is left out.
\<close>

definition settings_or_current :: "env \<Rightarrow> settings option \<Rightarrow> settings" where
  "settings_or_current ev settings_arg =
     (case settings_arg of None \<Rightarrow> current_settings ev | Some s \<Rightarrow> s)"

definition create_app :: "env \<Rightarrow> world \<Rightarrow> settings option \<Rightarrow> bool \<Rightarrow> bool \<Rightarrow> world \<times> (error + nat)" where
  "create_app ev w settings_arg ephemeral ignore_cache =
     (let settings' = settings_or_current ev settings_arg;
          cache_key = (settings', ephemeral)
      in case (if ignore_cache then None else map_of (APP_CACHE w) cache_key) of
           Some cached \<Rightarrow> (w, Inr cached)
         | None \<Rightarrow>
             (case create_orion_api (API_ROUTERS ev) (heap w) [] None ''/health''
                     (Some [exception_handlers_kwarg exception_handlers]) None of
                (h', Inl e) \<Rightarrow> (w\<lparr>heap := h'\<rparr>, Inl e)
              | (h', Inr api_app) \<Rightarrow>
                  (let ui_app = create_ui_app ev ephemeral;
                       a = apps_fresh w;
                       new_app = \<lparr>app_title = TITLE,
                                  ephemeral_closure = ephemeral,
                                  api = api_app\<lparr>api_mounts := api_mounts api_app @ [(''/static'', ''static'')]\<rparr>,
                                  ui = ui_app,
                                  mounts = [(''/api'', ''api''), (''/'', ''ui'')],
                                  state_services = Unset\<rparr>
                   in (w\<lparr>heap := h',
                         apps := (apps w)(a := new_app),
                         apps_fresh := Suc a,
                         APP_CACHE := AList.update cache_key a (APP_CACHE w)\<rparr>, Inr a))))"

section \<open>Registration of the block types at startup\<close>

text \<open>
  \<^verbatim>\<open>add_block_types\<close> reads of a block class the attributes below and sets
  \<^verbatim>\<open>_block_type_id\<close>.
\<close>

record block_class =
  block_type_name :: "string option"
  class_name :: string
  logo_url :: "string option"
  documentation_url :: "string option"
  block_type_id :: "nat option"

datatype block_type_create = BlockTypeCreate string "string option" "string option"

text \<open>
  \<^verbatim>\<open>create_block_type\<close>, \<^verbatim>\<open>create_block_schema\<close> and \<^verbatim>\<open>_to_block_schema\<close> are
  defined in modules that are not embedded here, so they are parameters:
  each of the first two takes the database, its argument and \<^verbatim>\<open>override\<close> and returns
  the database together with the exception it raises or with its result (for a block
  type, its id).
\<close>

record ('db, 'schema) models =
  create_block_type :: "'db \<Rightarrow> block_type_create \<Rightarrow> bool \<Rightarrow> 'db \<times> (exc + nat)"
  create_block_schema :: "'db \<Rightarrow> 'schema \<Rightarrow> bool \<Rightarrow> 'db \<times> (exc + unit)"
  to_block_schema :: "block_class \<Rightarrow> 'schema"

text \<open>
  The loop over \<^verbatim>\<open>BLOCK_REGISTRY.values()\<close>. Each block has its own transaction:
  an exception that leaves \<^verbatim>\<open>session.begin()\<close> rolls the database back to where the
  block started, and ends the function; an \<^verbatim>\<open>IntegrityError\<close> is caught inside the
  transaction by \<^verbatim>\<open>except sa.exc.IntegrityError: pass\<close> and the loop goes on. The
  result is the database, the block classes as the loop leaves them, and the exception
  that ended the function, if any.
\<close>

definition continue_with ::
  "block_class \<Rightarrow> 'db \<times> block_class list \<times> exc option \<Rightarrow> 'db \<times> block_class list \<times> exc option" where
  "continue_with b r = (case r of (db, bs, e) \<Rightarrow> (db, b # bs, e))"

fun is_IntegrityError :: "exc \<Rightarrow> bool" where
  "is_IntegrityError (IntegrityError _) = True"
| "is_IntegrityError _ = False"

text \<open>
  The \<^verbatim>\<open>BlockTypeCreate\<close> built for a block class; its name is
  \<^verbatim>\<open>block_class._block_type_name or block_class.__name__\<close>.
\<close>

definition block_type_of :: "block_class \<Rightarrow> block_type_create" where
  "block_type_of b =
     BlockTypeCreate
       (case block_type_name b of
          None \<Rightarrow> class_name b
        | Some n \<Rightarrow> if n = [] then class_name b else n)
       (logo_url b) (documentation_url b)"

fun add_block_types_loop ::
  "('db, 'schema) models \<Rightarrow> bool \<Rightarrow> 'db \<Rightarrow> block_class list \<Rightarrow> 'db \<times> block_class list \<times> exc option"
where
  "add_block_types_loop m should_override db [] = (db, [], None)"
| "add_block_types_loop m should_override db (b # bs) =
     (case create_block_type m db (block_type_of b) should_override of
        (db1, Inl e) \<Rightarrow>
          if is_IntegrityError e
          then continue_with b (add_block_types_loop m should_override db1 bs)
          else (db, b # bs, Some e)
      | (db1, Inr type_id) \<Rightarrow>
          (let b' = b\<lparr>block_type_id := Some type_id\<rparr> in
           case create_block_schema m db1 (to_block_schema m b') should_override of
             (db2, Inl e) \<Rightarrow>
               if is_IntegrityError e
               then continue_with b' (add_block_types_loop m should_override db2 bs)
               else (db, b' # bs, Some e)
           | (db2, Inr u) \<Rightarrow>
               continue_with b' (add_block_types_loop m should_override db2 bs)))"

text \<open>
  \<^verbatim>\<open>add_block_types\<close> on the database, the values of \<^verbatim>\<open>BLOCK_REGISTRY\<close> and the
  logger. \<^verbatim>\<open>bool(os.environ.get(...))\<close> is false for an unset and for an empty variable.
  The function contains no call of the logger.
\<close>

definition add_block_types ::
  "('db, 'schema) models \<Rightarrow> env \<Rightarrow> 'db \<times> block_class list \<times> log_entry list \<Rightarrow>
   ('db \<times> block_class list \<times> log_entry list) \<times> exc option" where
  "add_block_types m ev st =
     (case st of (db, BLOCK_REGISTRY, lg) \<Rightarrow>
        (let should_override =
               (case PREFECT_ORION_DEV_UPDATE_BLOCKS ev of None \<Rightarrow> False | Some v \<Rightarrow> v \<noteq> [])
         in case add_block_types_loop m should_override db BLOCK_REGISTRY of
              (db', blocks', e) \<Rightarrow> ((db', blocks', lg), e)))"

text \<open>
  Modelled from the spec: a registration service whose \<^verbatim>\<open>registerDescriptor\<close> fails
  with a duplicate-conflict fault on re-registration. The database is the list of the
  registered names; a block type's id is its position.
\<close>

definition register_models :: "(string list, string) models" where
  "register_models =
     \<lparr>create_block_type = (\<lambda>db c ovr. case c of BlockTypeCreate n _ _ \<Rightarrow>
          if n \<in> set db then (db, Inl (IntegrityError (''duplicate block type '' @ n)))
          else (db @ [n], Inr (length db))),
      create_block_schema = (\<lambda>db sch ovr.
          if sch \<in> set db then (db, Inl (IntegrityError (''duplicate block schema '' @ sch)))
          else (db @ [sch], Inr ())),
      to_block_schema = (\<lambda>b. ''schema of '' @ class_name b)\<rparr>"

section \<open>Invariants\<close>

text \<open>
  The keys of \<^verbatim>\<open>routers\<close> are the prefixes of its routers: true of the dict
  comprehension and kept by every iteration of the override loop.
\<close>

definition keyed :: "(string, router) dict \<Rightarrow> bool" where
  "keyed rs = list_all (\<lambda>(k, r). prefix r = k) rs"

text \<open>
  Every entry of \<^verbatim>\<open>APP_CACHE\<close> refers to an application object that exists and was
  built by \<^verbatim>\<open>create_app\<close> for the \<^verbatim>\<open>ephemeral\<close> flag of its key.
\<close>

definition built_for :: "bool \<Rightarrow> app \<Rightarrow> bool" where
  "built_for ephemeral a =
     (ephemeral_closure a = ephemeral \<and> (if ephemeral then ui_mounts (ui a) = [] else True))"

definition cache_ok :: "world \<Rightarrow> bool" where
  "cache_ok w =
     list_all (\<lambda>((s, e), a). a < apps_fresh w \<and> built_for e (apps w a)) (APP_CACHE w)"

text \<open>
  Every entry of \<^verbatim>\<open>APP_CACHE\<close> refers to an application whose API application was
  given the table of \<^verbatim>\<open>create_app\<close>.
\<close>

definition handlers_ok :: "world \<Rightarrow> bool" where
  "handlers_ok w =
     list_all (\<lambda>(k, a). kwargs (api (apps w a)) = [exception_handlers_kwarg exception_handlers])
       (APP_CACHE w)"

section \<open>Example values\<close>

definition admin_router :: router where
  "admin_router = \<lparr>prefix = ''/admin'', routes = [(''GET'', ''/''), (''POST'', ''/settings'')]\<rparr>"

definition admin_extended :: router where
  "admin_extended = \<lparr>prefix = ''/admin'',
     routes = [(''GET'', ''/''), (''POST'', ''/settings''), (''DELETE'', ''/cache'')]\<rparr>"

definition admin_reduced :: router where
  "admin_reduced = \<lparr>prefix = ''/admin'', routes = [(''GET'', ''/'')]\<rparr>"

definition admin_moved :: router where
  "admin_moved = \<lparr>prefix = ''/other'', routes = [(''GET'', ''/'')]\<rparr>"

definition logs_router :: router where
  "logs_router = \<lparr>prefix = ''/logs'', routes = [(''POST'', ''/''), (''POST'', ''/filter'')]\<rparr>"

definition empty_store :: store where
  "empty_store = \<lparr>cells = (\<lambda>_. []), fresh = 0\<rparr>"

definition all_enabled :: settings where
  "all_enabled = \<lparr>PREFECT_ORION_UI_ENABLED = True,
     PREFECT_ORION_SERVICES_SCHEDULER_ENABLED = True,
     PREFECT_ORION_SERVICES_LATE_RUNS_ENABLED = True,
     PREFECT_ORION_ANALYTICS_ENABLED = True,
     PREFECT_ORION_SERVICES_FLOW_RUN_NOTIFICATIONS_ENABLED = True\<rparr>"

definition all_disabled :: settings where
  "all_disabled = \<lparr>PREFECT_ORION_UI_ENABLED = True,
     PREFECT_ORION_SERVICES_SCHEDULER_ENABLED = False,
     PREFECT_ORION_SERVICES_LATE_RUNS_ENABLED = False,
     PREFECT_ORION_ANALYTICS_ENABLED = False,
     PREFECT_ORION_SERVICES_FLOW_RUN_NOTIFICATIONS_ENABLED = False\<rparr>"

definition env_with :: "settings \<Rightarrow> env" where
  "env_with s = \<lparr>API_ROUTERS = [admin_router, logs_router], current_settings = s,
     ui_static_path_exists = True, PREFECT_ORION_DEV_UPDATE_BLOCKS = None\<rparr>"

definition no_app :: app where
  "no_app = \<lparr>app_title = [], ephemeral_closure = False,
     api = \<lparr>title = [], kwargs = [], health_check = [], included = [], api_mounts = []\<rparr>,
     ui = \<lparr>ui_title = [], ui_routes = [], ui_mounts = []\<rparr>,
     mounts = [], state_services = Unset\<rparr>"

definition initial_world :: world where
  "initial_world = \<lparr>heap = empty_store, apps = (\<lambda>_. no_app), apps_fresh = 0, APP_CACHE = [],
     loop_tasks = [], stop_requests = [], logger = []\<rparr>"

text \<open>
  An application built with every service enabled, after its startup hook
  \<^verbatim>\<open>start_services\<close> has run; and the same for an ephemeral build and for a build with
  every service disabled.
\<close>

definition running_world :: world where
  "running_world =
     start_services (env_with all_enabled) 0
       (fst (create_app (env_with all_enabled) initial_world None False False))"

definition ephemeral_world :: world where
  "ephemeral_world = fst (create_app (env_with all_enabled) initial_world None True False)"

definition disabled_world :: world where
  "disabled_world = fst (create_app (env_with all_disabled) initial_world None False False)"

definition task_states :: "world \<Rightarrow> task_state list" where
  "task_states w = map state (loop_tasks w)"

definition block_a :: block_class where
  "block_a = \<lparr>block_type_name = None, class_name = ''Secret'', logo_url = None,
     documentation_url = None, block_type_id = None\<rparr>"

definition block_b :: block_class where
  "block_b = \<lparr>block_type_name = Some ''JSON'', class_name = ''JsonBlock'', logo_url = None,
     documentation_url = None, block_type_id = None\<rparr>"

section \<open>The override loop\<close>

lemma set_update_subset: "set (AList.update k v al) \<subseteq> insert (k, v) (set al)"
  by (induction al) auto

lemma keyed_update: "keyed al \<Longrightarrow> prefix r = k \<Longrightarrow> keyed (AList.update k r al)"
  using set_update_subset [of k r al] by (auto simp: keyed_def list_all_iff)

lemma keyed_delete: "keyed al \<Longrightarrow> keyed (AList.delete k al)"
  by (auto simp: keyed_def list_all_iff AList.delete_eq)

lemma keyed_foldl: "keyed d \<Longrightarrow> keyed (foldl (\<lambda>d r. AList.update (prefix r) r d) d rs)"
  by (induction rs arbitrary: d) (auto simp: keyed_update)

lemma keyed_routers_by_prefix: "keyed (routers_by_prefix rs)"
  unfolding routers_by_prefix_def by (rule keyed_foldl) (simp add: keyed_def)

lemma loop_keyed: "router_overrides_loop rs ovs = Inr rs' \<Longrightarrow> keyed rs \<Longrightarrow> keyed rs'"
proof (induction rs ovs rule: router_overrides_loop.induct)
  case (1 routers)
  then show ?case by simp
next
  case (2 routers p new rest)
  then show ?case
    by (auto simp: Let_def keyed_delete keyed_update split: option.splits if_splits)
qed

lemma loop_keys_subset:
  "router_overrides_loop rs ovs = Inr rs' \<Longrightarrow> fst ` set rs' \<subseteq> fst ` set rs"
proof (induction rs ovs rule: router_overrides_loop.induct)
  case (1 routers)
  then show ?case by simp
next
  case (2 routers p new rest)
  show ?case
  proof (cases "map_of routers p")
    case None
    with 2 show ?thesis by simp
  next
    case (Some ex)
    then have pin: "p \<in> fst ` set routers" by (metis map_of_eq_None_iff option.distinct(1))
    have del: "fst ` set (AList.delete p routers) \<subseteq> fst ` set routers"
      by (rule AList.dom_delete_subset)
    show ?thesis
    proof (cases new)
      case None
      with 2 \<open>map_of routers p = Some ex\<close>
      have "fst ` set rs' \<subseteq> fst ` set (AList.delete p routers)"
        by (simp add: Let_def)
      with del show ?thesis by blast
    next
      case (Some r)
      have upd: "fst ` set (AList.update p r (AList.delete p routers)) \<subseteq> fst ` set routers"
        using del pin by (auto simp: AList.dom_update)
      from 2 Some \<open>map_of routers p = Some ex\<close>
      have "fst ` set rs' \<subseteq> fst ` set (AList.update p r (AList.delete p routers))"
        by (simp add: Let_def split: if_splits)
      with upd show ?thesis by blast
    qed
  qed
qed

lemma loop_untouched:
  "router_overrides_loop rs ovs = Inr rs' \<Longrightarrow> q \<notin> fst ` set ovs \<Longrightarrow> map_of rs' q = map_of rs q"
proof (induction rs ovs rule: router_overrides_loop.induct)
  case (1 routers)
  then show ?case by simp
next
  case (2 routers p new rest)
  then show ?case
    by (auto simp: Let_def AList.update_conv' AList.delete_conv' split: option.splits if_splits)
qed

lemma loop_append:
  "router_overrides_loop rs (pre @ post) =
     (case router_overrides_loop rs pre of Inl e \<Rightarrow> Inl e | Inr rs1 \<Rightarrow> router_overrides_loop rs1 post)"
proof (induction rs pre rule: router_overrides_loop.induct)
  case (1 routers)
  then show ?case by simp
next
  case (2 routers p new rest)
  then show ?case
    by (auto simp: Let_def split: option.splits)
qed

lemma served_keyed:
  "keyed rs \<Longrightarrow> map (\<lambda>(r, _, _). (prefix r, r)) (map (\<lambda>r. (r, x, y)) (map snd rs)) = rs"
  by (induction rs) (auto simp: keyed_def)

lemma create_orion_api_snd:
  "snd (create_orion_api R h rp deps hc kw ovs) =
     (case (case ovs of None \<Rightarrow> Inr (routers_by_prefix R)
            | Some os \<Rightarrow> router_overrides_loop (routers_by_prefix R) os) of
        Inl e \<Rightarrow> Inl e
      | Inr rs \<Rightarrow> Inr \<lparr>title = API_TITLE,
                      kwargs = (case kw of None \<Rightarrow> [] | Some k \<Rightarrow> k),
                      health_check = hc,
                      included = map (\<lambda>r. (r, rp, case deps of None \<Rightarrow> fresh h | Some a \<Rightarrow> a))
                                   (map snd rs),
                      api_mounts = []\<rparr>)"
  by (cases ovs; cases deps)
     (auto simp: create_orion_api_def new_list_def Let_def split: sum.splits prod.splits)


lemma served_built:
  "keyed rs \<Longrightarrow>
   served \<lparr>title = t, kwargs = k, health_check = hc,
           included = map ((\<lambda>r. (r, x, y)) \<circ> snd) rs, api_mounts = ms\<rparr> p = map_of rs p"
  by (induction rs) (auto simp: served_def keyed_def)



lemmas ex_defs = admin_router_def admin_extended_def admin_reduced_def admin_moved_def
  logs_router_def routers_by_prefix_def method_paths_from_routes_def



section \<open>Unknown prefixes and removal\<close>

text \<open>
  Claim C5, as amended. An override map that contains a prefix the registry does not
  have makes \<^verbatim>\<open>create_orion_api\<close> fail, whatever value the map gives to that prefix;
  when the entries iterated before it are all accepted, the fault is the
  \<^verbatim>\<open>KeyError\<close> that names this prefix.
\<close>

theorem unknown_prefix_override_fails:
  assumes unknown: "map_of (routers_by_prefix R) p = None"
  shows "(\<exists>e. snd (create_orion_api R h rp deps hc kw (Some (pre @ (p, v) # post))) = Inl e)
       \<and> (\<forall>rs1. router_overrides_loop (routers_by_prefix R) pre = Inr rs1 \<longrightarrow>
            snd (create_orion_api R h rp deps hc kw (Some (pre @ (p, v) # post))) =
              Inl (KeyError (PrefixDoesNotExist p)))"
proof -
  have key: "router_overrides_loop (routers_by_prefix R) (pre @ (p, v) # post) =
               Inl (KeyError (PrefixDoesNotExist p))"
    if pre: "router_overrides_loop (routers_by_prefix R) pre = Inr rs1" for rs1
  proof -
    from unknown have "p \<notin> fst ` set (routers_by_prefix R)"
      by (simp add: map_of_eq_None_iff)
    with loop_keys_subset [OF pre] have "p \<notin> fst ` set rs1" by blast
    then have "map_of rs1 p = None" by (simp add: map_of_eq_None_iff)
    then show ?thesis by (simp add: loop_append pre)
  qed
  show ?thesis
  proof (cases "router_overrides_loop (routers_by_prefix R) pre")
    case (Inl e)
    then show ?thesis by (simp add: create_orion_api_snd loop_append)
  next
    case (Inr rs1)
    from key [OF Inr] Inr show ?thesis by (simp add: create_orion_api_snd)
  qed
qed

text \<open>
  The theorem at the prefix \<^verbatim>\<open>/nope\<close>, once with a router and once with \<^verbatim>\<open>None\<close> as
  its value, each after the removal of \<^verbatim>\<open>/logs\<close>.
\<close>

theorem unknown_prefix_override_fails_witness:
  "snd (create_orion_api [admin_router, logs_router] empty_store [] None ''/health'' None
         (Some [(''/logs'', None), (''/nope'', Some admin_extended)])) =
     Inl (KeyError (PrefixDoesNotExist ''/nope''))
   \<and> snd (create_orion_api [admin_router, logs_router] empty_store [] None ''/health'' None
         (Some [(''/logs'', None), (''/nope'', None)])) =
     Inl (KeyError (PrefixDoesNotExist ''/nope''))"
proof -
  have unknown: "map_of (routers_by_prefix [admin_router, logs_router]) ''/nope'' = None"
    by (simp add: ex_defs)
  have pre: "router_overrides_loop (routers_by_prefix [admin_router, logs_router]) [(''/logs'', None)]
               = Inr [(''/admin'', admin_router)]"
    by (simp add: ex_defs)
  from unknown_prefix_override_fails [OF unknown, of empty_store "[]" None "''/health''" None
         "[(''/logs'', None)]" "Some admin_extended" "[]"] pre
  have a: "snd (create_orion_api [admin_router, logs_router] empty_store [] None ''/health'' None
         (Some [(''/logs'', None), (''/nope'', Some admin_extended)])) =
     Inl (KeyError (PrefixDoesNotExist ''/nope''))"
    by simp
  from unknown_prefix_override_fails [OF unknown, of empty_store "[]" None "''/health''" None
         "[(''/logs'', None)]" None "[]"] pre
  have b: "snd (create_orion_api [admin_router, logs_router] empty_store [] None ''/health'' None
         (Some [(''/logs'', None), (''/nope'', None)])) =
     Inl (KeyError (PrefixDoesNotExist ''/nope''))"
    by simp
  from a b show ?thesis by blast
qed

text \<open>
  Claim C5 as it is written fails: when the map holds a regressing replacement of
  \<^verbatim>\<open>/admin\<close> before the unknown prefix, the call ends with the \<^verbatim>\<open>ValueError\<close> of
  the first entry, not with a fault about the unknown prefix.
\<close>

theorem unknown_prefix_masked_counterexample:
  "snd (create_orion_api [admin_router, logs_router] empty_store [] None ''/health'' None
         (Some [(''/admin'', Some admin_reduced), (''/nope'', None)])) =
     Inl (ValueError (MissingPaths ''/admin'' {(''POST'', ''/settings'')}))"
proof -
  have "set [(''GET'', ''/''), (''POST'', ''/settings'')] - set [(''GET'', ''/'')]
          = {(''POST'', ''/settings'')}"
    by auto
  then show ?thesis by (simp add: create_orion_api_snd ex_defs)
qed

text \<open>
  Claim C6. For a prefix of the registry, the override map that gives it \<^verbatim>\<open>None\<close>
  is accepted whatever the group contains: the application is built, serves no router
  under the prefix, and includes the other routers in their order. Inside a larger map
  whose earlier entries are accepted, the entry raises nothing: the loop goes on with the
  group popped, and every application built from such a map serves no router under the
  prefix.
\<close>

theorem absence_removes_group:
  assumes known: "map_of (routers_by_prefix R) p = Some g"
  shows "(\<exists>app. snd (create_orion_api R h rp deps hc kw (Some [(p, None)])) = Inr app
            \<and> served app p = None
            \<and> map fst (included app) = map snd (AList.delete p (routers_by_prefix R)))
       \<and> (\<forall>pre post rs1.
            distinct (map fst (pre @ (p, None) # post)) \<longrightarrow>
            router_overrides_loop (routers_by_prefix R) pre = Inr rs1 \<longrightarrow>
              router_overrides_loop (routers_by_prefix R) (pre @ (p, None) # post) =
                router_overrides_loop (AList.delete p rs1) post
              \<and> (\<forall>app. snd (create_orion_api R h rp deps hc kw (Some (pre @ (p, None) # post))) = Inr app
                     \<longrightarrow> served app p = None))"
proof (intro conjI allI impI)
  have kd: "keyed (AList.delete p (routers_by_prefix R))"
    by (rule keyed_delete [OF keyed_routers_by_prefix])
  have gone: "map_of (AList.delete p (routers_by_prefix R)) p = None"
    by (simp add: AList.delete_conv')
  let ?A = "\<lparr>title = API_TITLE, kwargs = (case kw of None \<Rightarrow> [] | Some k \<Rightarrow> k),
              health_check = hc,
              included = map ((\<lambda>r. (r, rp, case deps of None \<Rightarrow> fresh h | Some a \<Rightarrow> a)) \<circ> snd)
                           (AList.delete p (routers_by_prefix R)),
              api_mounts = []\<rparr>"
  have built: "snd (create_orion_api R h rp deps hc kw (Some [(p, None)])) = Inr ?A"
    by (simp add: create_orion_api_snd known)
  have absent: "served ?A p = None"
    by (simp only: served_built [OF kd] gone)
  have order: "map fst (included ?A) = map snd (AList.delete p (routers_by_prefix R))"
    by (simp add: comp_def)
  from built absent order
  show "\<exists>app. snd (create_orion_api R h rp deps hc kw (Some [(p, None)])) = Inr app
            \<and> served app p = None
            \<and> map fst (included app) = map snd (AList.delete p (routers_by_prefix R))"
    by blast
next
  fix pre post rs1
  assume dist: "distinct (map fst (pre @ (p, None) # post))"
     and pre: "router_overrides_loop (routers_by_prefix R) pre = Inr rs1"
  from dist have p_pre: "p \<notin> fst ` set pre" by auto
  from loop_untouched [OF pre p_pre] known have at1: "map_of rs1 p = Some g" by simp
  show step: "router_overrides_loop (routers_by_prefix R) (pre @ (p, None) # post) =
                router_overrides_loop (AList.delete p rs1) post"
    by (simp add: loop_append pre at1)
  fix app
  assume built: "snd (create_orion_api R h rp deps hc kw (Some (pre @ (p, None) # post))) = Inr app"
  then obtain final where
      fin: "router_overrides_loop (AList.delete p rs1) post = Inr final"
    and app: "app = \<lparr>title = API_TITLE, kwargs = (case kw of None \<Rightarrow> [] | Some k \<Rightarrow> k),
                      health_check = hc,
                      included = map ((\<lambda>r. (r, rp, case deps of None \<Rightarrow> fresh h | Some a \<Rightarrow> a)) \<circ> snd) final,
                      api_mounts = []\<rparr>"
    by (auto simp: create_orion_api_snd step split: sum.splits)
  have k1: "keyed rs1" by (rule loop_keyed [OF pre keyed_routers_by_prefix])
  have kf: "keyed final" by (rule loop_keyed [OF fin keyed_delete [OF k1]])
  have "p \<notin> fst ` set (AList.delete p rs1)" by (rule AList.delete_notin_dom)
  with loop_keys_subset [OF fin] have "p \<notin> fst ` set final" by blast
  then have "map_of final p = None" by (simp add: map_of_eq_None_iff)
  then show "served app p = None" by (simp add: app served_built [OF kf])
qed

text \<open>
  The theorem at \<^verbatim>\<open>/admin\<close>: alone, and after the removal of \<^verbatim>\<open>/logs\<close>.
\<close>

theorem absence_removes_group_witness:
  "(\<exists>app. snd (create_orion_api [admin_router, logs_router] empty_store [] None ''/health'' None
              (Some [(''/admin'', None)])) = Inr app
          \<and> served app ''/admin'' = None
          \<and> map fst (included app) = [logs_router])
   \<and> router_overrides_loop (routers_by_prefix [admin_router, logs_router])
         [(''/logs'', None), (''/admin'', None)] = Inr []"
proof -
  have known: "map_of (routers_by_prefix [admin_router, logs_router]) ''/admin'' = Some admin_router"
    by (simp add: ex_defs)
  have del: "map snd (AList.delete ''/admin'' (routers_by_prefix [admin_router, logs_router])) = [logs_router]"
    by (simp add: ex_defs)
  have pre: "router_overrides_loop (routers_by_prefix [admin_router, logs_router]) [(''/logs'', None)]
               = Inr [(''/admin'', admin_router)]"
    by (simp add: ex_defs)
  have dist: "distinct (map fst ([(''/logs'', None :: router option)] @ (''/admin'', None) # []))" by simp
  note inst = absence_removes_group [OF known, of empty_store "[]" None "''/health''" None]
  from inst del have a: "\<exists>app. snd (create_orion_api [admin_router, logs_router] empty_store [] None ''/health'' None
              (Some [(''/admin'', None)])) = Inr app
          \<and> served app ''/admin'' = None
          \<and> map fst (included app) = [logs_router]"
    by simp
  from inst have "distinct (map fst ([(''/logs'', None :: router option)] @ (''/admin'', None) # [])) \<longrightarrow>
            router_overrides_loop (routers_by_prefix [admin_router, logs_router]) [(''/logs'', None)]
               = Inr [(''/admin'', admin_router)] \<longrightarrow>
              router_overrides_loop (routers_by_prefix [admin_router, logs_router])
                 ([(''/logs'', None)] @ (''/admin'', None) # []) =
                router_overrides_loop (AList.delete ''/admin'' [(''/admin'', admin_router)]) []"
    by blast
  with dist pre have b: "router_overrides_loop (routers_by_prefix [admin_router, logs_router])
         [(''/logs'', None), (''/admin'', None)] = Inr []"
    by simp
  from a b show ?thesis by blast
qed

section \<open>The dependencies list\<close>



section \<open>The application cache, ephemeral builds and the services\<close>

lemma create_orion_api_default:
  "create_orion_api R h rp None hc kw None =
     (snd (new_list [Depends version_checker] h),
      Inr \<lparr>title = API_TITLE, kwargs = (case kw of None \<Rightarrow> [] | Some k \<Rightarrow> k),
           health_check = hc,
           included = map (\<lambda>r. (r, rp, fresh h)) (map snd (routers_by_prefix R)),
           api_mounts = []\<rparr>)"
  by (simp add: create_orion_api_def new_list_def Let_def)

lemma create_app_hit:
  "\<not> ic \<Longrightarrow> map_of (APP_CACHE w) (settings_or_current ev sa, e) = Some a \<Longrightarrow>
   create_app ev w sa e ic = (w, Inr a)"
  by (simp add: create_app_def Let_def)

lemma create_app_build:
  assumes "ic \<or> map_of (APP_CACHE w) (settings_or_current ev sa, e) = None"
  shows "\<exists>new. create_app ev w sa e ic =
           (w\<lparr>heap := snd (new_list [Depends version_checker] (heap w)),
              apps := (apps w)(apps_fresh w := new),
              apps_fresh := Suc (apps_fresh w),
              APP_CACHE := AList.update (settings_or_current ev sa, e) (apps_fresh w) (APP_CACHE w)\<rparr>,
            Inr (apps_fresh w))
         \<and> ephemeral_closure new = e \<and> ui new = create_ui_app ev e \<and> state_services new = Unset"
  using assms by (auto simp: create_app_def Let_def create_orion_api_default)

lemma create_app_cases:
  obtains (hit) a where "\<not> ic" "map_of (APP_CACHE w) (settings_or_current ev sa, e) = Some a"
                        "create_app ev w sa e ic = (w, Inr a)"
  | (build) new where "ic \<or> map_of (APP_CACHE w) (settings_or_current ev sa, e) = None"
       "create_app ev w sa e ic =
           (w\<lparr>heap := snd (new_list [Depends version_checker] (heap w)),
              apps := (apps w)(apps_fresh w := new),
              apps_fresh := Suc (apps_fresh w),
              APP_CACHE := AList.update (settings_or_current ev sa, e) (apps_fresh w) (APP_CACHE w)\<rparr>,
            Inr (apps_fresh w))"
       "ephemeral_closure new = e" "ui new = create_ui_app ev e" "state_services new = Unset"
proof (cases "ic \<or> map_of (APP_CACHE w) (settings_or_current ev sa, e) = None")
  case True
  from create_app_build [OF True] obtain new where
    "create_app ev w sa e ic =
           (w\<lparr>heap := snd (new_list [Depends version_checker] (heap w)),
              apps := (apps w)(apps_fresh w := new),
              apps_fresh := Suc (apps_fresh w),
              APP_CACHE := AList.update (settings_or_current ev sa, e) (apps_fresh w) (APP_CACHE w)\<rparr>,
            Inr (apps_fresh w))"
    "ephemeral_closure new = e" "ui new = create_ui_app ev e" "state_services new = Unset"
    by blast
  with True show ?thesis by (rule build)
next
  case False
  then obtain a where "\<not> ic" "map_of (APP_CACHE w) (settings_or_current ev sa, e) = Some a" by auto
  then show ?thesis using create_app_hit hit by blast
qed

lemma cache_ok_lookup:
  "cache_ok w \<Longrightarrow> map_of (APP_CACHE w) (s, e) = Some a \<Longrightarrow> a < apps_fresh w \<and> built_for e (apps w a)"
  by (auto simp: cache_ok_def list_all_iff dest!: map_of_SomeD)

lemma cache_ok_initial: "cache_ok initial_world"
  by (simp add: cache_ok_def initial_world_def)

lemma create_ui_app_ephemeral: "ui_mounts (create_ui_app ev True) = []"
  by (simp add: create_ui_app_def)

lemma cache_ok_create_app:
  assumes ok: "cache_ok w"
  shows "cache_ok (fst (create_app ev w sa e ic))"
proof (cases rule: create_app_cases [of ic w ev sa e])
  case (hit a)
  with ok show ?thesis by simp
next
  case (build new)
  have new_ok: "built_for e new"
    using build(3,4) by (simp add: built_for_def create_ui_app_ephemeral)
  have "set (AList.update (settings_or_current ev sa, e) (apps_fresh w) (APP_CACHE w))
          \<subseteq> insert ((settings_or_current ev sa, e), apps_fresh w) (set (APP_CACHE w))"
    by (rule set_update_subset)
  with ok new_ok show ?thesis
    unfolding build(2) cache_ok_def list_all_iff by (auto simp: less_Suc_eq)
qed

lemma cache_ok_start_services: "cache_ok w \<Longrightarrow> cache_ok (start_services ev a w)"
  by (auto simp: cache_ok_def list_all_iff start_services_def built_for_def Let_def)

lemma task_stops_nonempty: "ts \<noteq> [] \<Longrightarrow> task_stops ts = Inl (AttributeError ''stop'')"
  by (cases ts) (simp_all add: task_stop_def)

lemma stop_services_effect:
  "stop_services a w = Inr w' \<Longrightarrow>
     loop_tasks w' = loop_tasks w \<and> apps w' = apps w \<and> APP_CACHE w' = APP_CACHE w \<and>
     stop_requests w' =
       stop_requests w @ (case state_services (apps w a) of
                            Assigned (Some services) \<Rightarrow> map fst services | _ \<Rightarrow> [])"
  by (auto simp: stop_services_def Let_def split: attribute.splits option.splits if_splits sum.splits)

lemma cache_ok_stop_services: "stop_services a w = Inr w' \<Longrightarrow> cache_ok w \<Longrightarrow> cache_ok w'"
  by (auto simp: stop_services_def cache_ok_def Let_def
           split: attribute.splits option.splits if_splits sum.splits)

lemma start_services_ephemeral:
  "ephemeral_closure (apps w a) \<Longrightarrow>
   start_services ev a w = w\<lparr>apps := (apps w)(a := (apps w a)\<lparr>state_services := Assigned None\<rparr>)\<rparr>"
  by (simp add: start_services_def)

text \<open>
  Claim C4. In a world whose cache holds applications built by \<^verbatim>\<open>create_app\<close>, which
  the initial world is and every call keeps, a build with \<^verbatim>\<open>ephemeral=True\<close> returns an
  application that has no UI mounted; its \<^verbatim>\<open>start_services\<close> records the services as
  \<^verbatim>\<open>None\<close> and creates no task, whatever the settings say at the build (\<open>ev\<close>) and
  at startup (\<open>ev'\<close>); the build itself creates no task either.
\<close>

theorem ephemeral_build_no_services_no_ui:
  assumes ok: "cache_ok w"
  shows "\<exists>a. snd (create_app ev w sa True ic) = Inr a
     \<and> ephemeral_closure (apps (fst (create_app ev w sa True ic)) a)
     \<and> ui_mounts (ui (apps (fst (create_app ev w sa True ic)) a)) = []
     \<and> state_services (apps (start_services ev' a (fst (create_app ev w sa True ic))) a) = Assigned None
     \<and> loop_tasks (start_services ev' a (fst (create_app ev w sa True ic))) =
         loop_tasks (fst (create_app ev w sa True ic))
     \<and> loop_tasks (fst (create_app ev w sa True ic)) = loop_tasks w"
proof (cases rule: create_app_cases [of ic w ev sa True])
  case (hit a)
  from cache_ok_lookup [OF ok hit(2)] have "built_for True (apps w a)" by simp
  then have "ephemeral_closure (apps w a)" "ui_mounts (ui (apps w a)) = []"
    by (simp_all add: built_for_def)
  then show ?thesis by (simp add: hit(3) start_services_ephemeral)
next
  case (build new)
  then show ?thesis
    by (simp add: start_services_ephemeral create_ui_app_ephemeral)
qed

lemmas world_defs = initial_world_def env_with_def all_enabled_def all_disabled_def
  empty_store_def settings_or_current_def create_app_def create_orion_api_default new_list_def
  create_ui_app_def

lemma ephemeral_world_eval:
  "create_app (env_with all_enabled) initial_world None True False = (ephemeral_world, Inr 0)"
  by (simp add: ephemeral_world_def world_defs Let_def)

text \<open>
  The theorem at the first build of a process, with every service and the UI enabled.
\<close>

theorem ephemeral_build_no_services_no_ui_witness:
  "snd (create_app (env_with all_enabled) initial_world None True False) = Inr 0
   \<and> ui_mounts (ui (apps ephemeral_world 0)) = []
   \<and> state_services (apps (start_services (env_with all_enabled) 0 ephemeral_world) 0) = Assigned None
   \<and> loop_tasks (start_services (env_with all_enabled) 0 ephemeral_world) = []"
proof -
  have ok: "cache_ok initial_world" by (simp add: cache_ok_def initial_world_def)
  have lt: "loop_tasks initial_world = []" by (simp add: initial_world_def)
  from ephemeral_build_no_services_no_ui [OF ok, of "env_with all_enabled" None False "env_with all_enabled"]
  show ?thesis by (simp add: ephemeral_world_eval lt)
qed




text \<open>
  Claim C7, as amended. For an ephemeral application \<^verbatim>\<open>start_services\<close> records
  \<^verbatim>\<open>None\<close>; for another application with the four service settings disabled it records
  the empty dict. In both cases it changes nothing else, so no task is created and
  nothing is logged, and \<^verbatim>\<open>stop_services\<close> returns at once and changes nothing.
\<close>

theorem no_services_start_stop:
  "(ephemeral_closure (apps w a) \<longrightarrow>
      start_services ev a w =
        w\<lparr>apps := (apps w)(a := (apps w a)\<lparr>state_services := Assigned None\<rparr>)\<rparr>
      \<and> stop_services a (start_services ev a w) = Inr (start_services ev a w))
   \<and> (\<not> ephemeral_closure (apps w a)
      \<and> \<not> PREFECT_ORION_SERVICES_SCHEDULER_ENABLED (current_settings ev)
      \<and> \<not> PREFECT_ORION_SERVICES_LATE_RUNS_ENABLED (current_settings ev)
      \<and> \<not> PREFECT_ORION_ANALYTICS_ENABLED (current_settings ev)
      \<and> \<not> PREFECT_ORION_SERVICES_FLOW_RUN_NOTIFICATIONS_ENABLED (current_settings ev) \<longrightarrow>
      start_services ev a w =
        w\<lparr>apps := (apps w)(a := (apps w a)\<lparr>state_services := Assigned (Some [])\<rparr>)\<rparr>
      \<and> stop_services a (start_services ev a w) = Inr (start_services ev a w))"
  by (simp add: start_services_def stop_services_def service_instances_def Let_def)

lemma disabled_world_eval:
  "ephemeral_closure (apps disabled_world 0) = False \<and> ephemeral_closure (apps ephemeral_world 0) = True"
  by (simp add: disabled_world_def ephemeral_world_def world_defs Let_def)

text \<open>
  The theorem at an ephemeral build and at a build with every service disabled.
\<close>

theorem no_services_start_stop_witness:
  "stop_services 0 (start_services (env_with all_enabled) 0 ephemeral_world) =
     Inr (start_services (env_with all_enabled) 0 ephemeral_world)
   \<and> stop_services 0 (start_services (env_with all_disabled) 0 disabled_world) =
     Inr (start_services (env_with all_disabled) 0 disabled_world)
   \<and> loop_tasks (start_services (env_with all_disabled) 0 disabled_world) = []"
proof -
  have flags: "\<not> PREFECT_ORION_SERVICES_SCHEDULER_ENABLED (current_settings (env_with all_disabled))
      \<and> \<not> PREFECT_ORION_SERVICES_LATE_RUNS_ENABLED (current_settings (env_with all_disabled))
      \<and> \<not> PREFECT_ORION_ANALYTICS_ENABLED (current_settings (env_with all_disabled))
      \<and> \<not> PREFECT_ORION_SERVICES_FLOW_RUN_NOTIFICATIONS_ENABLED (current_settings (env_with all_disabled))"
    by (simp add: env_with_def all_disabled_def)
  have lt: "loop_tasks disabled_world = []"
    by (simp add: disabled_world_def world_defs Let_def)
  have eph: "ephemeral_closure (apps ephemeral_world 0)"
    and normal: "\<not> ephemeral_closure (apps disabled_world 0)"
    using disabled_world_eval by simp_all
  from no_services_start_stop [of ephemeral_world 0 "env_with all_enabled"] eph
  have a: "stop_services 0 (start_services (env_with all_enabled) 0 ephemeral_world) =
     Inr (start_services (env_with all_enabled) 0 ephemeral_world)"
    by blast
  from no_services_start_stop [of disabled_world 0 "env_with all_disabled"] normal flags
  have b: "start_services (env_with all_disabled) 0 disabled_world =
        disabled_world\<lparr>apps := (apps disabled_world)(0 := (apps disabled_world 0)\<lparr>state_services := Assigned (Some [])\<rparr>)\<rparr>"
    and c: "stop_services 0 (start_services (env_with all_disabled) 0 disabled_world) =
     Inr (start_services (env_with all_disabled) 0 disabled_world)"
    by blast+
  have d: "loop_tasks (start_services (env_with all_disabled) 0 disabled_world) = []"
    by (simp add: b lt)
  from a c d show ?thesis by blast
qed

text \<open>
  Claim C7 as it is written fails: in normal mode with every service setting disabled
  the handle is the empty dict, not \<^verbatim>\<open>None\<close>.
\<close>

theorem disabled_services_empty_dict_counterexample:
  "state_services (apps (start_services (env_with all_disabled) 0 disabled_world) 0) = Assigned (Some [])
   \<and> state_services (apps (start_services (env_with all_disabled) 0 disabled_world) 0) \<noteq> Assigned None"
  by (simp add: disabled_world_def world_defs Let_def start_services_def service_instances_def)

lemma running_world_eval:
  "state_services (apps running_world 0) =
     Assigned (Some [(Scheduler, 0), (MarkLateRuns, 1), (Telemetry, 2), (FlowRunNotifications, 3)])
   \<and> task_states running_world = [Pending, Pending, Pending, Pending]
   \<and> stop_requests running_world = []"
  by (simp add: running_world_def world_defs Let_def start_services_def service_instances_def
        task_states_def upt_rec)

text \<open>
  Claim C2 at an application started with the four services: \<^verbatim>\<open>stop_services\<close> sends
  the four stop requests and returns while the four tasks are pending, none of them in
  a terminal state.
\<close>

theorem stop_services_returns_with_pending_tasks:
  "map_sum id stop_requests (stop_services 0 running_world) =
     Inr [Scheduler, MarkLateRuns, Telemetry, FlowRunNotifications]
   \<and> map_sum id task_states (stop_services 0 running_world) =
     Inr [Pending, Pending, Pending, Pending]
   \<and> map_sum id (map terminal \<circ> task_states) (stop_services 0 running_world) =
     Inr [False, False, False, False]"
proof -
  have "stop_services 0 running_world =
          Inr (running_world\<lparr>stop_requests := [Scheduler, MarkLateRuns, Telemetry, FlowRunNotifications]\<rparr>)"
    using running_world_eval
    by (simp add: stop_services_def Let_def task_stop_def)
  then show ?thesis using running_world_eval by (simp add: task_states_def)
qed

section \<open>Block type registration\<close>

lemma continue_with_exc [simp]: "snd (snd (continue_with b r)) = snd (snd r)"
  by (simp add: continue_with_def split: prod.splits)

lemma loop_no_exception:
  assumes t: "\<And>d c e. snd (create_block_type m d c so) = Inl e \<Longrightarrow> is_IntegrityError e"
      and s: "\<And>d x e. snd (create_block_schema m d x so) = Inl e \<Longrightarrow> is_IntegrityError e"
  shows "snd (snd (add_block_types_loop m so db bs)) = None"
proof (induction bs arbitrary: db)
  case Nil
  show ?case by simp
next
  case (Cons b bs)
  show ?case
  proof (cases "create_block_type m db (block_type_of b) so")
    case (Pair db1 r1)
    show ?thesis
    proof (cases r1)
      case (Inl e)
      with Pair t [of db "block_type_of b" e] have "is_IntegrityError e" by simp
      with Pair Inl Cons.IH show ?thesis by simp
    next
      case (Inr i)
      show ?thesis
      proof (cases "create_block_schema m db1 (to_block_schema m (b\<lparr>block_type_id := Some i\<rparr>)) so")
        case (Pair db2 r2)
        show ?thesis
        proof (cases r2)
          case (Inl e)
          with Pair s [of db1 "to_block_schema m (b\<lparr>block_type_id := Some i\<rparr>)" e]
          have "is_IntegrityError e" by simp
          with \<open>create_block_type m db (block_type_of b) so = (db1, r1)\<close> Inr Pair Inl Cons.IH
          show ?thesis by (simp add: Let_def)
        next
          case (Inr u)
          with \<open>create_block_type m db (block_type_of b) so = (db1, r1)\<close> \<open>r1 = Inr i\<close> Pair Cons.IH
          show ?thesis by (simp add: Let_def)
        qed
      qed
    qed
  qed
qed

lemma add_block_types_exc:
  "snd (add_block_types m ev (db, bs, lg)) =
     snd (snd (add_block_types_loop m
        (case PREFECT_ORION_DEV_UPDATE_BLOCKS ev of None \<Rightarrow> False | Some v \<Rightarrow> v \<noteq> []) db bs))"
  by (simp add: add_block_types_def Let_def split: prod.splits)

text \<open>
  Claim C9, as amended. \<^verbatim>\<open>add_block_types\<close> leaves the logger as it was. An
  \<^verbatim>\<open>IntegrityError\<close> raised for a block, by \<^verbatim>\<open>create_block_type\<close> or by
  \<^verbatim>\<open>create_block_schema\<close>, is discarded and the loop goes on with the blocks that
  follow; when the two functions raise nothing but \<^verbatim>\<open>IntegrityError\<close> the whole
  function returns without an exception.
\<close>

theorem integrity_faults_swallowed_without_log:
  "snd (snd (fst (add_block_types m ev (db, bs, lg)))) = lg
   \<and> (\<forall>db1 low so. create_block_type m db (block_type_of b) so = (db1, Inl (IntegrityError low)) \<longrightarrow>
        add_block_types_loop m so db (b # bs) = continue_with b (add_block_types_loop m so db1 bs))
   \<and> (\<forall>db1 db2 i low so.
        create_block_type m db (block_type_of b) so = (db1, Inr i) \<longrightarrow>
        create_block_schema m db1 (to_block_schema m (b\<lparr>block_type_id := Some i\<rparr>)) so =
          (db2, Inl (IntegrityError low)) \<longrightarrow>
        add_block_types_loop m so db (b # bs) =
          continue_with (b\<lparr>block_type_id := Some i\<rparr>) (add_block_types_loop m so db2 bs))
   \<and> ((\<forall>d c so e. snd (create_block_type m d c so) = Inl e \<longrightarrow> is_IntegrityError e)
      \<and> (\<forall>d x so e. snd (create_block_schema m d x so) = Inl e \<longrightarrow> is_IntegrityError e)
      \<longrightarrow> snd (add_block_types m ev (db, bs, lg)) = None)"
proof (intro conjI allI impI)
  show "snd (snd (fst (add_block_types m ev (db, bs, lg)))) = lg"
    by (simp add: add_block_types_def Let_def split: prod.splits)
next
  fix db1 low so
  assume "create_block_type m db (block_type_of b) so = (db1, Inl (IntegrityError low))"
  then show "add_block_types_loop m so db (b # bs) = continue_with b (add_block_types_loop m so db1 bs)"
    by simp
next
  fix db1 db2 i low so
  assume "create_block_type m db (block_type_of b) so = (db1, Inr i)"
     and "create_block_schema m db1 (to_block_schema m (b\<lparr>block_type_id := Some i\<rparr>)) so =
          (db2, Inl (IntegrityError low))"
  then show "add_block_types_loop m so db (b # bs) =
          continue_with (b\<lparr>block_type_id := Some i\<rparr>) (add_block_types_loop m so db2 bs)"
    by (simp add: Let_def)
next
  assume only: "(\<forall>d c so e. snd (create_block_type m d c so) = Inl e \<longrightarrow> is_IntegrityError e)
      \<and> (\<forall>d x so e. snd (create_block_schema m d x so) = Inl e \<longrightarrow> is_IntegrityError e)"
  have "snd (snd (add_block_types_loop m so db bs)) = None" for so
    by (rule loop_no_exception) (use only in blast)+
  then show "snd (add_block_types m ev (db, bs, lg)) = None"
    by (simp add: add_block_types_exc)
qed

lemmas block_defs = register_models_def block_type_of_def block_a_def block_b_def
  add_block_types_def continue_with_def env_with_def

text \<open>
  The theorem at a database that already holds the block type \<^verbatim>\<open>Secret\<close>.
\<close>

theorem integrity_faults_swallowed_without_log_witness:
  "snd (add_block_types register_models (env_with all_enabled) ([''Secret''], [block_a, block_b], [])) = None
   \<and> add_block_types_loop register_models False [''Secret''] [block_a, block_b] =
       continue_with block_a (add_block_types_loop register_models False [''Secret''] [block_b])"
proof -
  have t: "\<forall>d c so e. snd (create_block_type register_models d c so) = Inl e \<longrightarrow> is_IntegrityError e"
    by (auto simp: register_models_def split: block_type_create.splits if_splits)
  have s: "\<forall>d x so e. snd (create_block_schema register_models d x so) = Inl e \<longrightarrow> is_IntegrityError e"
    by (auto simp: register_models_def split: if_splits)
  have dup: "create_block_type register_models [''Secret''] (block_type_of block_a) False =
               ([''Secret''], Inl (IntegrityError ''duplicate block type Secret''))"
    by (simp add: block_defs)
  note inst = integrity_faults_swallowed_without_log
                [of register_models "env_with all_enabled" "[''Secret'']" "[block_b]" "[]" block_a]
  note inst2 = integrity_faults_swallowed_without_log
                [of register_models "env_with all_enabled" "[''Secret'']" "[block_a, block_b]" "[]" block_a]
  from inst2 t s
  have a: "snd (add_block_types register_models (env_with all_enabled) ([''Secret''], [block_a, block_b], [])) = None"
    by blast
  from inst dup
  have b: "add_block_types_loop register_models False [''Secret''] [block_a, block_b] =
       continue_with block_a (add_block_types_loop register_models False [''Secret''] [block_b])"
    by blast
  from a b show ?thesis by blast
qed

text \<open>
  Claim C9 as it is written fails: the duplicate of \<^verbatim>\<open>Secret\<close> raises, the block after
  it is registered, and the logger is as empty as before.
\<close>

theorem duplicate_fault_not_logged_counterexample:
  "snd (create_block_type register_models [''Secret''] (block_type_of block_a) False) =
     Inl (IntegrityError ''duplicate block type Secret'')
   \<and> add_block_types register_models (env_with all_enabled) ([''Secret''], [block_a, block_b], []) =
     (([''Secret'', ''JSON'', ''schema of JsonBlock''],
       [block_a, block_b\<lparr>block_type_id := Some 1\<rparr>], []), None)"
  by (simp add: block_defs Let_def)

section \<open>Fault translation\<close>



lemma create_app_built_kwargs:
  "ic \<or> map_of (APP_CACHE w) (settings_or_current ev sa, e) = None \<Longrightarrow>
   snd (create_app ev w sa e ic) = Inr (apps_fresh w) \<and>
   kwargs (api (apps (fst (create_app ev w sa e ic)) (apps_fresh w))) =
     [exception_handlers_kwarg exception_handlers]"
  by (auto simp: create_app_def Let_def create_orion_api_default)


lemma handlers_ok_initial: "handlers_ok initial_world"
  by (simp add: handlers_ok_def initial_world_def)


lemma handlers_ok_create_app:
  assumes c: "cache_ok w" and ok: "handlers_ok w"
  shows "handlers_ok (fst (create_app ev w sa e ic))"
proof (cases rule: create_app_cases [of ic w ev sa e])
  case (hit a)
  with ok show ?thesis by simp
next
  case (build new)
  from create_app_built_kwargs [OF build(1)] build(2)
  have new_kw: "kwargs (api new) = [exception_handlers_kwarg exception_handlers]" by simp
  have sub: "set (AList.update (settings_or_current ev sa, e) (apps_fresh w) (APP_CACHE w))
          \<subseteq> insert ((settings_or_current ev sa, e), apps_fresh w) (set (APP_CACHE w))"
    by (rule set_update_subset)
  have old: "a \<noteq> apps_fresh w" if "(k, a) \<in> set (APP_CACHE w)" for k a
    using c that by (auto simp: cache_ok_def list_all_iff)
  show ?thesis
    unfolding build(2) handlers_ok_def list_all_iff
    using sub ok new_kw old by (auto simp: handlers_ok_def list_all_iff)
qed

lemma handlers_ok_start_services: "handlers_ok w \<Longrightarrow> handlers_ok (start_services ev a w)"
  by (auto simp: handlers_ok_def list_all_iff start_services_def Let_def)

lemma handlers_ok_stop_services: "stop_services a w = Inr w' \<Longrightarrow> handlers_ok w \<Longrightarrow> handlers_ok w'"
  by (auto simp: stop_services_def handlers_ok_def Let_def
           split: attribute.splits option.splits if_splits sum.splits)





end
